theory Spec2Isabelle
  imports Complex_Main "HOL-Library.Char_ord" "HOL-Library.List_Lexorder"
    "HOL-Library.Product_Lexorder"
begin

section \<open>Text and the chunk splitter of \<open>traducir_texto_google\<close>\<close>

text \<open>
  A Python \<open>str\<close> is a sequence of Unicode code points and \<open>len\<close> counts code points,
  so the text handed to the translator is modelled as a list of code points (natural
  numbers). The separator of \<open>texto.split('. ')\<close> is the full stop (46) followed by the
  space (32).
\<close>

type_synonym codepoint = nat
type_synonym pystr = "codepoint list"

definition delim :: pystr where
  "delim = [46, 32]"

text \<open>
  \<open>str.isspace\<close> for one code point, as CPython's \<open>_PyUnicode_IsWhitespace\<close> lists
  them; \<open>str.strip()\<close> removes such code points from both ends.
\<close>

definition is_space :: "codepoint \<Rightarrow> bool" where
  "is_space c \<longleftrightarrow>
     (9 \<le> c \<and> c \<le> 13) \<or> (28 \<le> c \<and> c \<le> 32) \<or> c = 133 \<or> c = 160 \<or> c = 5760 \<or>
     (8192 \<le> c \<and> c \<le> 8202) \<or> c = 8232 \<or> c = 8233 \<or> c = 8239 \<or> c = 8287 \<or> c = 12288"

definition strip :: "pystr \<Rightarrow> pystr" where
  "strip s = rev (dropWhile is_space (rev (dropWhile is_space s)))"

text \<open>
  \<open>texto.split('. ')\<close>: the text is scanned from the left and cut at every occurrence
  of the separator that does not overlap an earlier one; the result always has at least
  one element (\<open>''.split('. ') == ['']\<close>).
\<close>

fun cons_first :: "codepoint \<Rightarrow> pystr list \<Rightarrow> pystr list" where
  "cons_first c [] = [[c]]"
| "cons_first c (s # ss) = (c # s) # ss"

fun split_delim :: "pystr \<Rightarrow> pystr list" where
  "split_delim [] = [[]]"
| "split_delim [c] = [[c]]"
| "split_delim (c # d # ds) =
     (if c = 46 \<and> d = 32 then [] # split_delim ds
      else cons_first c (split_delim (d # ds)))"

text \<open>
  The first loop of \<open>traducir_texto_google\<close> (lines 328--340): every sentence gets the
  separator appended, and the running buffer \<open>current_chunk\<close> is closed (stripped and
  appended to \<open>chunks\<close>) when the next sentence would make it longer than 3000.
\<close>

fun accumulate :: "pystr list \<Rightarrow> pystr \<Rightarrow> pystr list \<Rightarrow> pystr list \<times> pystr" where
  "accumulate [] current_chunk chunks = (chunks, current_chunk)"
| "accumulate (s # ss) current_chunk chunks =
     (let sentence = s @ delim in
      if length (current_chunk @ sentence) > 3000
      then accumulate ss sentence
             (if current_chunk \<noteq> [] then chunks @ [strip current_chunk] else chunks)
      else accumulate ss (current_chunk @ sentence) chunks)"

definition soft_chunks :: "pystr \<Rightarrow> pystr list" where
  "soft_chunks texto =
     (case accumulate (split_delim texto) [] [] of
        (chunks, current_chunk) \<Rightarrow>
          if current_chunk \<noteq> [] then chunks @ [strip current_chunk] else chunks)"

text \<open>
  The second loop (lines 343--349): a chunk longer than 5000 is cut into the slices
  \<open>chunk[i:i+2500]\<close> for \<open>i\<close> in \<open>range(0, len(chunk), 2500)\<close>.
\<close>

definition range_step :: "nat \<Rightarrow> nat \<Rightarrow> nat list" where
  "range_step n step = map (\<lambda>k. k * step) [0 ..< (n + step - 1) div step]"

definition subchunks :: "pystr \<Rightarrow> pystr list" where
  "subchunks chunk = map (\<lambda>i. take 2500 (drop i chunk)) (range_step (length chunk) 2500)"

definition final_chunks :: "pystr list \<Rightarrow> pystr list" where
  "final_chunks chunks =
     concat (map (\<lambda>chunk. if length chunk > 5000 then subchunks chunk else [chunk]) chunks)"

definition splitter :: "pystr \<Rightarrow> pystr list" where
  "splitter texto = final_chunks (soft_chunks texto)"

text \<open>
  Two notions used to state properties of the splitter: whether a text contains the
  separator, and whether it ends with it.
\<close>

fun has_delim :: "pystr \<Rightarrow> bool" where
  "has_delim (c # d # ds) = ((c = 46 \<and> d = 32) \<or> has_delim (d # ds))"
| "has_delim _ = False"

definition ends_delim :: "pystr \<Rightarrow> bool" where
  "ends_delim p \<longleftrightarrow> (\<exists>q. p = q @ delim)"

section \<open>Translation: \<open>traducir_texto_google\<close>, \<open>traducir_texto_engine\<close>, \<open>traducir_con_cache\<close>\<close>

text \<open>
  Identifiers that the code only compares or concatenates (language codes, the engine
  name, job ids, status names, ISO timestamps) are ASCII and modelled as \<open>string\<close>;
  \<open>py\<close> turns such a literal into the code points of the Python string.
\<close>

definition py :: "string \<Rightarrow> pystr" where
  "py s = map of_char s"

datatype py_exception = Exception string

text \<open>
  \<open>str.encode()\<close> (UTF-8, strict) raises \<open>UnicodeEncodeError\<close> on a string that holds
  a surrogate code point (U+D800 to U+DFFF), which a Python \<open>str\<close> may hold; every
  other string has an encoding.
\<close>

definition encodable :: "pystr \<Rightarrow> bool" where
  "encodable s = list_all (\<lambda>c. c < 55296 \<or> 57343 < c) s"

text \<open>
  A \<open>bytes\<close> value of the cache is either the UTF-8 encoding of a text, represented by
  that text (\<open>value.encode()\<close> is \<open>Utf8\<close>), or a sequence of bytes that is not valid
  UTF-8, on which \<open>cached_result.decode('utf-8')\<close> raises \<open>UnicodeDecodeError\<close>.
\<close>

datatype bytes = Utf8 pystr | NotUtf8 "nat list"

fun decode :: "bytes \<Rightarrow> py_exception + pystr" where
  "decode (Utf8 s) = Inr s"
| "decode (NotUtf8 bs) = Inl (Exception ''UnicodeDecodeError'')"

text \<open>
  Python truthiness of what \<open>redis_client.get\<close> returns: \<open>None\<close> and the empty
  \<open>bytes\<close> are false.
\<close>

fun truthy :: "bytes option \<Rightarrow> bool" where
  "truthy None = False"
| "truthy (Some (Utf8 s)) = (s \<noteq> [])"
| "truthy (Some (NotUtf8 bs)) = (bs \<noteq> [])"

text \<open>
  The collaborators the translation functions call, taken as parameters:
  \<^item> \<open>DEEPL_API_KEY\<close>: the environment variable (\<open>None\<close> when unset);
  \<^item> \<open>deepl_translate texto source target\<close>: the value of
    \<open>str(deepl.Translator(DEEPL_API_KEY).translate_text(texto, ...))\<close>, or the exception
    it raises (also when the \<open>deepl\<close> module is missing);
  \<^item> \<open>google_translate source target chunk\<close>: the value of
    \<open>GoogleTranslator(source=source, target=target).translate(chunk)\<close>, or the exception
    it raises; the value is \<open>None\<close> when the library returns no string;
  \<^item> \<open>md5\<close>: \<open>hashlib.md5(...).hexdigest()\<close>, as a function of the text whose encoding
    it is given;
  \<^item> \<open>redis_get\<close>, \<open>redis_setex\<close>: the two methods of \<open>redis_client\<close> over the
    state \<open>'s\<close> of the store, each returning its value or the exception it raises. Their
    second argument is the time of the call in seconds, on which the answer of a store
    that expires its entries depends.
\<close>

record ('s, 'k) collaborators =
  DEEPL_API_KEY :: "string option"
  deepl_translate :: "pystr \<Rightarrow> string \<Rightarrow> string \<Rightarrow> py_exception + pystr"
  google_translate :: "string \<Rightarrow> string \<Rightarrow> pystr \<Rightarrow> py_exception + pystr option"
  md5 :: "pystr \<Rightarrow> 'k"
  redis_get :: "'s \<Rightarrow> nat \<Rightarrow> 'k \<Rightarrow> py_exception + bytes option"
  redis_setex :: "'s \<Rightarrow> nat \<Rightarrow> 'k \<Rightarrow> nat \<Rightarrow> pystr \<Rightarrow> py_exception + 's"

text \<open>
  The translation loop of \<open>traducir_texto_google\<close> (lines 351--358): a chunk whose call
  raises is kept as it is.
\<close>

definition translate_chunk :: "('s, 'k) collaborators \<Rightarrow> string \<Rightarrow> string \<Rightarrow> pystr \<Rightarrow> pystr option" where
  "translate_chunk env source target chunk =
     (case google_translate env source target chunk of
        Inr trad \<Rightarrow> trad
      | Inl e \<Rightarrow> Some chunk)"

text \<open>\<open>''.join(traducciones)\<close> raises \<open>TypeError\<close> when an element is not a string.\<close>

fun join_py :: "pystr option list \<Rightarrow> py_exception + pystr" where
  "join_py [] = Inr []"
| "join_py (None # rest) = Inl (Exception ''TypeError'')"
| "join_py (Some s # rest) =
     (case join_py rest of Inl e \<Rightarrow> Inl e | Inr r \<Rightarrow> Inr (s @ r))"

definition traducir_texto_google :: "('s, 'k) collaborators \<Rightarrow> pystr \<Rightarrow> string \<Rightarrow> string \<Rightarrow> pystr" where
  "traducir_texto_google env texto source target =
     (let traducciones = map (translate_chunk env source target) (splitter texto) in
      case join_py traducciones of
        Inr r \<Rightarrow> r
      | Inl e \<Rightarrow> texto)"

text \<open>Truthiness of \<open>DEEPL_API_KEY\<close>: set and not the empty string.\<close>

fun key_set :: "string option \<Rightarrow> bool" where
  "key_set None = False"
| "key_set (Some k) = (k \<noteq> [])"

text \<open>
  \<open>traducir_texto_engine\<close> (lines 308--322). \<open>traducir_texto_google\<close> catches every
  exception itself, so inside the \<open>try\<close> only the DeepL call can raise.
\<close>

definition traducir_texto_engine :: "('s, 'k) collaborators \<Rightarrow> pystr \<Rightarrow> string \<Rightarrow> string \<Rightarrow> string \<Rightarrow> pystr" where
  "traducir_texto_engine env texto source target engine =
     (if engine = ''deepl'' \<and> key_set (DEEPL_API_KEY env)
      then (case deepl_translate env texto source target of
              Inr result \<Rightarrow> result
            | Inl e \<Rightarrow>
                if engine \<noteq> ''google'' then traducir_texto_google env texto source target
                else texto)
      else traducir_texto_google env texto source target)"

text \<open>
  \<open>get_cache_key\<close> (lines 287--290): \<open>content.encode()\<close> raises when the content cannot
  be encoded.
\<close>

definition get_cache_key :: "('s, 'k) collaborators \<Rightarrow> pystr \<Rightarrow> string \<Rightarrow> string \<Rightarrow> string \<Rightarrow> py_exception + 'k" where
  "get_cache_key env texto source target engine =
     (let content = texto @ py ''|'' @ py source @ py ''|'' @ py target @ py ''|'' @ py engine
      in if encodable content then Inr (md5 env content)
         else Inl (Exception ''UnicodeEncodeError''))"

text \<open>
  \<open>traducir_con_cache\<close> (lines 292--306), called at time \<open>now\<close>, has no \<open>try\<close>: an
  exception of \<open>get_cache_key\<close>, of \<open>redis_client.get\<close>, of \<open>decode\<close> or of
  \<open>redis_client.setex\<close> leaves the function. The result is the returned text with the
  new state of the store, or the exception.
\<close>

definition traducir_con_cache :: "('s, 'k) collaborators \<Rightarrow> nat \<Rightarrow> 's \<Rightarrow> pystr \<Rightarrow> string \<Rightarrow> string \<Rightarrow> string \<Rightarrow> py_exception + (pystr \<times> 's)" where
  "traducir_con_cache env now store texto source target engine =
     (if strip texto = [] then Inr ([], store)
      else
        case get_cache_key env texto source target engine of
          Inl e \<Rightarrow> Inl e
        | Inr cache_key \<Rightarrow>
            (case redis_get env store now cache_key of
               Inl e \<Rightarrow> Inl e
             | Inr cached_result \<Rightarrow>
                 if truthy cached_result
                 then (case decode (the cached_result) of
                         Inl e \<Rightarrow> Inl e
                       | Inr cached \<Rightarrow> Inr (cached, store))
                 else
                   let result = traducir_texto_engine env texto source target engine in
                   if result \<noteq> []
                   then (case redis_setex env store now cache_key 86400 result of
                           Inl e \<Rightarrow> Inl e
                         | Inr store' \<Rightarrow> Inr (result, store'))
                   else Inr (result, store)))"

text \<open>
  \<open>MockRedis\<close> (lines 112--121), the in-process store used when no Redis is configured:
  its state is the dictionary \<open>data\<close>. \<open>get\<close> reads the dictionary and \<open>setex\<close> writes
  the encoded value (\<open>value.encode()\<close> raises when the value cannot be encoded);
  neither looks at the clock, and \<open>setex\<close> ignores its \<open>time\<close> argument.
\<close>

type_synonym 'k MockRedis = "'k \<rightharpoonup> bytes"

definition MockRedis_init :: "'k MockRedis" where
  "MockRedis_init = Map.empty"

definition MockRedis_get :: "'k MockRedis \<Rightarrow> nat \<Rightarrow> 'k \<Rightarrow> py_exception + bytes option" where
  "MockRedis_get data now key = Inr (data key)"

definition MockRedis_setex :: "'k MockRedis \<Rightarrow> nat \<Rightarrow> 'k \<Rightarrow> nat \<Rightarrow> pystr \<Rightarrow> py_exception + 'k MockRedis" where
  "MockRedis_setex data now key time val =
     (if encodable val then Inr (data(key \<mapsto> Utf8 val))
      else Inl (Exception ''UnicodeEncodeError''))"

text \<open>
  The program as it runs without Redis (\<open>redis_client = MockRedis()\<close>, line 121), for a
  given key, given engines and a given hash.
\<close>

definition with_MockRedis :: "string option \<Rightarrow> (pystr \<Rightarrow> string \<Rightarrow> string \<Rightarrow> py_exception + pystr) \<Rightarrow> (string \<Rightarrow> string \<Rightarrow> pystr \<Rightarrow> py_exception + pystr option) \<Rightarrow> (pystr \<Rightarrow> 'k) \<Rightarrow> ('k MockRedis, 'k) collaborators" where
  "with_MockRedis key deepl google h =
     \<lparr>DEEPL_API_KEY = key, deepl_translate = deepl, google_translate = google, md5 = h,
      redis_get = MockRedis_get, redis_setex = MockRedis_setex\<rparr>"

text \<open>
  Engines and a store to run the functions on: engines of which every call raises, a
  Google engine with one answer for every chunk, one that refuses a chunk of more than
  5000 code points, one that returns no string, a DeepL engine that reports whether it
  was handed more than 5000 code points, and a store of which every call raises.
\<close>

definition deepl_down :: "pystr \<Rightarrow> string \<Rightarrow> string \<Rightarrow> py_exception + pystr" where
  "deepl_down texto source target = Inl (Exception ''DeepLException'')"

definition google_down :: "string \<Rightarrow> string \<Rightarrow> pystr \<Rightarrow> py_exception + pystr option" where
  "google_down source target chunk = Inl (Exception ''RequestError'')"

definition google_says :: "pystr \<Rightarrow> string \<Rightarrow> string \<Rightarrow> pystr \<Rightarrow> py_exception + pystr option" where
  "google_says answer source target chunk = Inr (Some answer)"

definition google_rejects_long :: "pystr \<Rightarrow> string \<Rightarrow> string \<Rightarrow> pystr \<Rightarrow> py_exception + pystr option" where
  "google_rejects_long answer source target chunk =
     (if length chunk > 5000 then Inl (Exception ''NotValidLength'') else Inr (Some answer))"

definition deepl_checks_size :: "pystr \<Rightarrow> string \<Rightarrow> string \<Rightarrow> py_exception + pystr" where
  "deepl_checks_size texto source target =
     Inr (if length texto > 5000 then py ''oversized'' else py ''fits'')"

definition google_silent :: "string \<Rightarrow> string \<Rightarrow> pystr \<Rightarrow> py_exception + pystr option" where
  "google_silent source target chunk = Inr None"

definition redis_get_down :: "'s \<Rightarrow> nat \<Rightarrow> 'k \<Rightarrow> py_exception + bytes option" where
  "redis_get_down store now key = Inl (Exception ''ConnectionError'')"

definition redis_setex_down :: "'s \<Rightarrow> nat \<Rightarrow> 'k \<Rightarrow> nat \<Rightarrow> pystr \<Rightarrow> py_exception + 's" where
  "redis_setex_down store now key time val = Inl (Exception ''ConnectionError'')"

section \<open>The rate limiter \<open>check_rate_limit\<close>\<close>

text \<open>
  A \<open>datetime\<close> is a number of microseconds on the local clock, so
  \<open>timedelta(minutes=1)\<close> is 60000000. \<open>now\<close> is the value of \<open>datetime.now()\<close> read by
  the call; the function returns its result and the new \<open>last_usage\<close>.
\<close>

type_synonym datetime = int

definition minute :: int where
  "minute = 60 * 1000000"

definition check_rate_limit :: "(int \<rightharpoonup> datetime) \<Rightarrow> datetime \<Rightarrow> int \<Rightarrow> bool \<times> (int \<rightharpoonup> datetime)" where
  "check_rate_limit last_usage now usuario_id =
     (case last_usage usuario_id of
        Some previous \<Rightarrow>
          if now - previous < minute then (False, last_usage)
          else (True, last_usage(usuario_id \<mapsto> now))
      | None \<Rightarrow> (True, last_usage(usuario_id \<mapsto> now)))"

section \<open>The queue of \<open>QueuePlugin\<close>\<close>

text \<open>
  \<open>QueueItem\<close> as the dataclass declares it; the field \<open>id\<close> is named \<open>item_id\<close>.
  Timestamps are the strings \<open>datetime.now().isoformat()\<close> returns, compared as Python
  compares strings (lexicographically).
\<close>

record QueueItem =
  item_id :: string
  user_id :: int
  file_path :: string
  file_size :: int
  priority :: int
  status :: string
  created_at :: string
  started_at :: "string option"
  completed_at :: "string option"
  progress :: real
  result_path :: "string option"
  error_msg :: "string option"
  estimated_time :: "int option"

text \<open>
  The file \<open>storage/translation_queue.json\<close>: missing, not loadable as a list of
  \<open>QueueItem\<close> records, or holding such a list.
\<close>

datatype queue_file = NoFile | Unreadable | Records "QueueItem list"

record QueuePlugin =
  queue :: "QueueItem list"
  processing_slots :: int
  currently_processing :: int
  disk :: queue_file

text \<open>\<open>QueuePlugin.__init__\<close>, on a file system holding \<open>d\<close>.\<close>

definition QueuePlugin_init :: "queue_file \<Rightarrow> QueuePlugin" where
  "QueuePlugin_init d =
     \<lparr>queue = [], processing_slots = 2, currently_processing = 0, disk = d\<rparr>"

text \<open>
  \<open>save_queue\<close> writes the whole queue, in its current order; the model follows the
  write that succeeds (a failing write is logged and swallowed by the code).
\<close>

definition save_queue :: "QueuePlugin \<Rightarrow> QueuePlugin" where
  "save_queue self = self\<lparr>disk := Records (queue self)\<rparr>"

text \<open>
  \<open>load_queue\<close> (lines 212--221): each stored record becomes a \<open>QueueItem\<close> with the
  fields it was stored with; with no file, or when loading raises, the queue is left as
  it is.
\<close>

definition load_queue :: "QueuePlugin \<Rightarrow> QueuePlugin" where
  "load_queue self =
     (case disk self of
        Records data \<Rightarrow> self\<lparr>queue := data\<rparr>
      | _ \<Rightarrow> self)"

text \<open>
  \<open>add_to_queue\<close> (lines 66--97). The fresh \<open>uuid4\<close>, the clock reading and the
  floating-point estimate of \<open>estimate_processing_time\<close> are arguments. The queue is
  saved before it is sorted; \<open>list.sort\<close> is stable, as \<open>sort_key\<close> is, and Python
  compares the key tuples lexicographically.
\<close>

definition sort_order :: "QueueItem \<Rightarrow> int \<times> string" where
  "sort_order x = (- priority x, created_at x)"

definition add_to_queue :: "string \<Rightarrow> string \<Rightarrow> int \<Rightarrow> QueuePlugin \<Rightarrow> int \<Rightarrow> string \<Rightarrow> int \<Rightarrow> int \<Rightarrow> string \<times> QueuePlugin" where
  "add_to_queue new_id now estimate self uid fpath fsize prio =
     (let item = \<lparr>item_id = new_id, user_id = uid, file_path = fpath, file_size = fsize,
                   priority = prio, status = ''queued'', created_at = now,
                   started_at = None, completed_at = None, progress = 0,
                   result_path = None, error_msg = None, estimated_time = Some estimate\<rparr>;
          self1 = self\<lparr>queue := queue self @ [item]\<rparr>;
          self2 = save_queue self1;
          self3 = self2\<lparr>queue := sort_key sort_order (queue self2)\<rparr>
      in (new_id, self3))"

text \<open>
  One iteration of the inner \<open>while\<close> of \<open>process_queue\<close> (lines 117--133): with a free
  slot and a non-empty queue, the first item of the queue whose status is \<open>queued\<close> is
  marked \<open>processing\<close> in place and handed to \<open>process_item\<close>. The result is the item
  taken (\<open>None\<close> when the loop stops) and the new state.
\<close>

definition pending_items :: "QueueItem list \<Rightarrow> QueueItem list" where
  "pending_items q = filter (\<lambda>item. status item = ''queued'') q"

definition start_item :: "string \<Rightarrow> QueueItem \<Rightarrow> QueueItem" where
  "start_item now item = item\<lparr>status := ''processing'', started_at := Some now\<rparr>"

fun start_first_pending :: "string \<Rightarrow> QueueItem list \<Rightarrow> QueueItem list" where
  "start_first_pending now [] = []"
| "start_first_pending now (x # xs) =
     (if status x = ''queued'' then start_item now x # xs
      else x # start_first_pending now xs)"

definition dispatch :: "string \<Rightarrow> QueuePlugin \<Rightarrow> QueueItem option \<times> QueuePlugin" where
  "dispatch now self =
     (if currently_processing self < processing_slots self \<and> queue self \<noteq> []
      then (case pending_items (queue self) of
              [] \<Rightarrow> (None, self)
            | item # rest \<Rightarrow>
                (Some item,
                 save_queue (self\<lparr>queue := start_first_pending now (queue self),
                                   currently_processing := currently_processing self + 1\<rparr>)))
      else (None, self))"

text \<open>
  The inner \<open>while\<close> as a whole: it dispatches until no slot is free or no item is
  queued, and yields the items handed to \<open>process_item\<close>, in that order. \<open>clock k\<close>
  is the reading of \<open>datetime.now()\<close> in the iteration numbered \<open>k\<close>. Each dispatch
  takes a slot, so the loop ends. (The outer \<open>while True\<close> sleeps five seconds and runs
  the inner loop again.)
\<close>

function process_queue_pass :: "(nat \<Rightarrow> string) \<Rightarrow> nat \<Rightarrow> QueuePlugin \<Rightarrow> QueueItem list \<times> QueuePlugin" where
  "process_queue_pass clock k self =
     (case dispatch (clock k) self of
        (None, self') \<Rightarrow> ([], self')
      | (Some item, self') \<Rightarrow>
          (case process_queue_pass clock (Suc k) self' of
             (items, self'') \<Rightarrow> (item # items, self'')))"
  by pat_completeness auto
termination
proof (relation "measure (\<lambda>(clock, k, self). nat (processing_slots self - currently_processing self))")
  show "wf (measure (\<lambda>(clock, k, self). nat (processing_slots self - currently_processing self)))"
    by simp
next
  fix clock :: "nat \<Rightarrow> string" and k self x item self'
  assume "(x, self') = dispatch (clock k) self" "x = Some item"
  then show "((clock, Suc k, self'), (clock, k, self))
      \<in> measure (\<lambda>(clock, k, self). nat (processing_slots self - currently_processing self))"
    by (auto simp: dispatch_def save_queue_def split: if_splits list.splits)
qed

text \<open>
  \<open>cancel_item\<close> (lines 193--210): the loop returns at the first item with the given id
  and user whose status is \<open>queued\<close> or \<open>processing\<close>.
\<close>

fun cancel_loop :: "string \<Rightarrow> int \<Rightarrow> QueueItem list \<Rightarrow> bool \<times> QueueItem list" where
  "cancel_loop iid uid [] = (False, [])"
| "cancel_loop iid uid (item # rest) =
     (if item_id item = iid \<and> user_id item = uid \<and> status item = ''queued''
      then (True, item\<lparr>status := ''cancelled''\<rparr> # rest)
      else if item_id item = iid \<and> user_id item = uid \<and> status item = ''processing''
      then (False, item # rest)
      else (case cancel_loop iid uid rest of (r, rest') \<Rightarrow> (r, item # rest')))"

definition cancel_item :: "QueuePlugin \<Rightarrow> string \<Rightarrow> int \<Rightarrow> bool \<times> QueuePlugin" where
  "cancel_item self iid uid =
     (case cancel_loop iid uid (queue self) of
        (True, q) \<Rightarrow> (True, save_queue (self\<lparr>queue := q\<rparr>))
      | (False, q) \<Rightarrow> (False, self))"

text \<open>
  What \<open>cancel_item\<close> may do to one item of the queue: leave it, or, when the call
  returns \<open>True\<close>, turn a \<open>queued\<close> item of the given id and user into a \<open>cancelled\<close>
  one.
\<close>

definition cancelled_from :: "string \<Rightarrow> int \<Rightarrow> bool \<Rightarrow> QueueItem \<Rightarrow> QueueItem \<Rightarrow> bool" where
  "cancelled_from iid uid r x y \<longleftrightarrow>
     y = x \<or> (r \<and> item_id x = iid \<and> user_id x = uid \<and> status x = ''queued''
               \<and> y = x\<lparr>status := ''cancelled''\<rparr>)"

text \<open>
  Jobs and states to run the queue on: a job of user \<open>uid\<close> as \<open>add_to_queue\<close> builds
  it, with a given status; the state after two calls of \<open>add_to_queue\<close>, first for a job
  \<open>A\<close> of priority 1 and five seconds later for a job \<open>B\<close> of priority 4; and a queue
  holding a \<open>processing\<close> and a \<open>queued\<close> job.
\<close>

definition job :: "string \<Rightarrow> int \<Rightarrow> int \<Rightarrow> string \<Rightarrow> string \<Rightarrow> QueueItem" where
  "job i uid prio st created =
     \<lparr>item_id = i, user_id = uid, file_path = ''book.epub'', file_size = 1000,
      priority = prio, status = st, created_at = created, started_at = None,
      completed_at = None, progress = 0, result_path = None, error_msg = None,
      estimated_time = Some 0\<rparr>"

definition two_adds :: QueuePlugin where
  "two_adds =
     snd (add_to_queue ''B'' ''2024-01-01T10:00:05'' 0
       (snd (add_to_queue ''A'' ''2024-01-01T10:00:00'' 0 (QueuePlugin_init NoFile)
          7 ''book.epub'' 1000 1))
       7 ''book.epub'' 1000 4)"

definition two_jobs :: QueuePlugin where
  "two_jobs =
     (QueuePlugin_init NoFile)
       \<lparr>queue := [job ''A'' 7 2 ''processing'' ''2024-01-01T10:00:00'',
                  job ''B'' 7 2 ''queued'' ''2024-01-01T10:00:05'']\<rparr>"

section \<open>Properties of the splitter\<close>

subsection \<open>Splitting at the separator\<close>

lemma split_delim_nonempty: "split_delim t \<noteq> []"
  by (induction t rule: split_delim.induct) (auto split: list.splits elim: cons_first.elims)

lemma concat_cons_first:
  "ss \<noteq> [] \<Longrightarrow>
   concat (map (\<lambda>s. s @ delim) (cons_first c ss)) = c # concat (map (\<lambda>s. s @ delim) ss)"
  by (cases ss) auto

lemma join_split_delim: "concat (map (\<lambda>s. s @ delim) (split_delim t)) = t @ delim"
  by (induction t rule: split_delim.induct)
     (auto simp: concat_cons_first split_delim_nonempty, simp add: delim_def)

lemma split_delim_sentence:
  "\<not> has_delim s \<Longrightarrow> split_delim (s @ delim @ rest) = s # split_delim rest"
  by (induction s rule: has_delim.induct) (auto simp: delim_def)

lemma split_delim_single: "\<not> has_delim s \<Longrightarrow> split_delim s = [s]"
  by (induction s rule: has_delim.induct) auto

lemma has_delim_replicate: "c \<noteq> 46 \<Longrightarrow> \<not> has_delim (replicate n c)"
proof (induction n)
  case 0
  then show ?case by simp
next
  case (Suc n)
  then show ?case by (cases n) auto
qed

subsection \<open>Stripping\<close>

lemma strip_sentence: "strip (x @ delim) = dropWhile is_space x @ [46]"
proof -
  have lead: "dropWhile is_space (x @ [46, 32]) = dropWhile is_space x @ [46, 32]"
    by (induction x) (auto simp: is_space_def)
  have trail: "dropWhile is_space (rev (dropWhile is_space x @ [46, 32]))
      = 46 # rev (dropWhile is_space x)"
    by (simp add: is_space_def)
  show ?thesis
    unfolding strip_def delim_def lead trail by simp
qed

lemma strip_sentence_clean:
  "x \<noteq> [] \<Longrightarrow> \<not> is_space (hd x) \<Longrightarrow> strip (x @ delim) = x @ [46]"
  using strip_sentence[of x] by (cases x) auto

lemma strip_delim: "strip delim = [46]"
  using strip_sentence[of "[]"] by simp

subsection \<open>Slicing\<close>

lemma take_drop_slices:
  "concat (map (\<lambda>i. take m (drop i xs)) (map (\<lambda>k. k * m) [0..<n])) = take (n * m) xs"
proof (induction n)
  case 0
  then show ?case by simp
next
  case (Suc n)
  have "take (n * m) xs @ take m (drop (n * m) xs) = take (n * m + m) xs"
    by (simp add: take_add)
  with Suc show ?case by (simp add: add.commute)
qed

lemma concat_subchunks: "concat (subchunks chunk) = chunk"
proof -
  have "length chunk \<le> ((length chunk + 2500 - 1) div 2500) * 2500"
    by arith
  then show ?thesis
    unfolding subchunks_def range_step_def take_drop_slices by simp
qed

lemma concat_final_chunks: "concat (final_chunks chunks) = concat chunks"
  by (induction chunks) (auto simp: final_chunks_def concat_subchunks)

lemma subchunks_length: "c \<in> set (subchunks chunk) \<Longrightarrow> length c \<le> 2500"
  unfolding subchunks_def by auto

lemma subchunks_6001:
  "length c = 6001 \<Longrightarrow> subchunks c = [take 2500 c, take 2500 (drop 2500 c), drop 5000 c]"
proof -
  have "[0..<3] = [0, 1, 2::nat]" by code_simp
  then show ?thesis if "length c = 6001"
    using that by (simp add: subchunks_def range_step_def)
qed

subsection \<open>A text that is one sentence\<close>

lemma single_sentence:
  assumes "\<not> has_delim t" "t \<noteq> []" "\<not> is_space (hd t)"
  shows "soft_chunks t = [t @ [46]]"
  using assms
  by (simp add: soft_chunks_def split_delim_single Let_def strip_sentence_clean
      delim_def[symmetric])

lemma six_thousand:
  assumes "length t = 6000" "\<not> has_delim t" "\<not> is_space (hd t)"
  shows "splitter t = [take 2500 t, take 2500 (drop 2500 t), drop 5000 t @ [46]]"
proof -
  from assms have "t \<noteq> []" by auto
  with assms have "soft_chunks t = [t @ [46]]" by (simp add: single_sentence)
  then show ?thesis using assms by (simp add: splitter_def final_chunks_def subchunks_6001)
qed

lemma length_delim: "length delim = 2"
  by (simp add: delim_def)

lemma delim_nonempty: "delim \<noteq> []"
  by (simp add: delim_def)

subsection \<open>Texts of two and of four sentences\<close>

lemma two_sentences:
  assumes "\<not> has_delim a" "\<not> has_delim b" "\<not> is_space (hd a)" "\<not> is_space (hd b)"
    and "length a = 2000" "length b = 2000"
  shows "splitter (a @ delim @ b) = [a @ [46], b @ [46]]"
proof -
  from assms have ne: "a \<noteq> []" "b \<noteq> []" by auto
  have sp: "split_delim (a @ delim @ b) = [a, b]"
    using assms by (simp add: split_delim_sentence split_delim_single)
  have "accumulate [a, b] [] [] = ([strip (a @ delim)], b @ delim)"
    using assms ne by (simp add: Let_def length_delim)
  then have "soft_chunks (a @ delim @ b) = [a @ [46], b @ [46]]"
    using assms ne by (simp add: soft_chunks_def sp strip_sentence_clean)
  then show ?thesis using assms by (simp add: splitter_def final_chunks_def)
qed

lemma four_sentences:
  assumes nd: "\<not> has_delim s1" "\<not> has_delim s2" "\<not> has_delim s3" "\<not> has_delim s4"
    and sp: "\<not> is_space (hd s1)" "\<not> is_space (hd s2)" "\<not> is_space (hd s3)"
      "\<not> is_space (hd s4)"
    and len: "length s1 = 2999" "length s2 = 2999" "length s3 = 2998" "length s4 = 2998"
  shows "splitter (s1 @ delim @ s2 @ delim @ s3 @ delim @ s4)
     = [s1 @ [46], s2 @ [46], s3 @ [46], s4 @ [46]]"
proof -
  from len have ne: "s1 \<noteq> []" "s2 \<noteq> []" "s3 \<noteq> []" "s4 \<noteq> []" by auto
  have split: "split_delim (s1 @ delim @ s2 @ delim @ s3 @ delim @ s4) = [s1, s2, s3, s4]"
    using nd by (simp add: split_delim_sentence split_delim_single)
  have "accumulate [s1, s2, s3, s4] [] []
      = ([strip (s1 @ delim), strip (s2 @ delim), strip (s3 @ delim)], s4 @ delim)"
    using len by (simp add: Let_def length_delim delim_nonempty)
  then have "soft_chunks (s1 @ delim @ s2 @ delim @ s3 @ delim @ s4)
      = [s1 @ [46], s2 @ [46], s3 @ [46], s4 @ [46]]"
    using sp ne by (simp add: soft_chunks_def split strip_sentence_clean delim_nonempty)
  then show ?thesis using len by (simp add: splitter_def final_chunks_def)
qed

lemma four_terminated_sentences:
  assumes nd: "\<not> has_delim s"
    and sp: "\<not> is_space (hd s)"
    and len: "length s = 2998"
  shows "splitter (s @ delim @ s @ delim @ s @ delim @ s @ delim)
     = [s @ [46], s @ [46], s @ [46], s @ [46], [46]]"
proof -
  from len have ne: "s \<noteq> []" by auto
  have "split_delim (s @ delim) = [s, []]"
    using nd split_delim_sentence[of s "[]"] by simp
  then have split:
    "split_delim (s @ delim @ s @ delim @ s @ delim @ s @ delim) = [s, s, s, s, []]"
    using nd by (simp add: split_delim_sentence)
  have "accumulate [s, s, s, s, []] [] []
      = ([strip (s @ delim), strip (s @ delim), strip (s @ delim), strip (s @ delim)], delim)"
    using len by (simp add: Let_def length_delim delim_nonempty)
  then have "soft_chunks (s @ delim @ s @ delim @ s @ delim @ s @ delim)
      = [s @ [46], s @ [46], s @ [46], s @ [46], [46]]"
    using sp ne
    by (simp add: soft_chunks_def split strip_sentence_clean strip_delim delim_nonempty)
  then show ?thesis using len by (simp add: splitter_def final_chunks_def)
qed

subsection \<open>What the concatenation of the chunks keeps\<close>

lemma ends_delim_append: "ends_delim (c @ s @ delim)"
  unfolding ends_delim_def by (rule exI[of _ "c @ s"]) simp

text \<open>
  The buffers the first loop closes, before they are stripped: their concatenation,
  with the buffer still open, is what the loop has read so far, and each of them ends
  with the separator.
\<close>

lemma accumulate_pieces:
  assumes "accumulate ss cur chunks = (chunks', cur')"
    and "cur = [] \<or> ends_delim cur"
  shows "\<exists>ps. chunks' = chunks @ map strip ps
      \<and> concat ps @ cur' = cur @ concat (map (\<lambda>s. s @ delim) ss)
      \<and> (\<forall>p \<in> set ps. ends_delim p)
      \<and> (cur' = [] \<or> ends_delim cur')"
  using assms
proof (induction ss arbitrary: cur chunks)
  case Nil
  then show ?case by (intro exI[of _ "[]"]) simp
next
  case (Cons s ss)
  let ?sentence = "s @ delim"
  have e1: "ends_delim ?sentence"
    using ends_delim_append[of "[]" s] by simp
  have e2: "ends_delim (cur @ ?sentence)"
    by (rule ends_delim_append)
  show ?case
  proof (cases "length (cur @ ?sentence) > 3000")
    case long: True
    show ?thesis
    proof (cases "cur = []")
      case True
      with long Cons.prems have "accumulate ss ?sentence chunks = (chunks', cur')"
        by (simp add: Let_def)
      from Cons.IH[OF this] e1 obtain ps where
        "chunks' = chunks @ map strip ps"
        "concat ps @ cur' = ?sentence @ concat (map (\<lambda>s. s @ delim) ss)"
        "\<forall>p \<in> set ps. ends_delim p" "cur' = [] \<or> ends_delim cur'"
        by blast
      with True show ?thesis by (intro exI[of _ ps]) simp
    next
      case False
      with long Cons.prems
      have "accumulate ss ?sentence (chunks @ [strip cur]) = (chunks', cur')"
        by (simp add: Let_def)
      from Cons.IH[OF this] e1 obtain ps where ps:
        "chunks' = (chunks @ [strip cur]) @ map strip ps"
        "concat ps @ cur' = ?sentence @ concat (map (\<lambda>s. s @ delim) ss)"
        "\<forall>p \<in> set ps. ends_delim p" "cur' = [] \<or> ends_delim cur'"
        by blast
      from False Cons.prems(2) have "ends_delim cur" by simp
      with ps show ?thesis by (intro exI[of _ "cur # ps"]) simp
    qed
  next
    case False
    with Cons.prems have "accumulate ss (cur @ ?sentence) chunks = (chunks', cur')"
      by (simp add: Let_def)
    from Cons.IH[OF this] e2 obtain ps where
      "chunks' = chunks @ map strip ps"
      "concat ps @ cur' = (cur @ ?sentence) @ concat (map (\<lambda>s. s @ delim) ss)"
      "\<forall>p \<in> set ps. ends_delim p" "cur' = [] \<or> ends_delim cur'"
      by blast
    then show ?thesis by (intro exI[of _ ps]) simp
  qed
qed

lemma soft_chunks_pieces:
  "\<exists>pieces. concat pieces = texto @ delim \<and> (\<forall>p \<in> set pieces. ends_delim p)
     \<and> soft_chunks texto = map strip pieces"
proof -
  obtain chunks cur where a: "accumulate (split_delim texto) [] [] = (chunks, cur)"
    by (cases "accumulate (split_delim texto) [] []")
  from accumulate_pieces[OF a] obtain ps where ps:
    "chunks = map strip ps" "concat ps @ cur = texto @ delim"
    "\<forall>p \<in> set ps. ends_delim p" "cur = [] \<or> ends_delim cur"
    by (auto simp: join_split_delim)
  show ?thesis
  proof (cases "cur = []")
    case True
    with ps a show ?thesis
      by (intro exI[of _ ps]) (simp add: soft_chunks_def)
  next
    case False
    with ps a show ?thesis
      by (intro exI[of _ "ps @ [cur]"]) (simp add: soft_chunks_def)
  qed
qed

text \<open>
  Claim C1, as amended. The chunks are stripped, so whitespace at the two ends of a
  chunk is not in their concatenation; that is all the splitting changes. For every
  text there are pieces whose concatenation is the text, up to the restored separator
  at its end, every piece but the last ending with the separator, such that the chunks
  before the slicing of the long ones are these pieces, stripped, in their order. The
  concatenation of the chunks in output order is therefore that of the stripped pieces:
  apart from the whitespace at the two ends of a piece no code point is lost, and none
  is duplicated or moved.
\<close>

theorem splitter_join_stripped_pieces:
  "\<exists>pieces tail.
     (tail = [] \<or> tail = delim)
     \<and> concat pieces = texto @ tail
     \<and> (\<forall>p \<in> set (butlast pieces). \<exists>q. p = q @ delim)
     \<and> soft_chunks texto = map strip pieces
     \<and> splitter texto = final_chunks (map strip pieces)
     \<and> concat (splitter texto) = concat (map strip pieces)"
proof -
  from soft_chunks_pieces[of texto] obtain pieces where p:
    "concat pieces = texto @ delim" "\<forall>p \<in> set pieces. ends_delim p"
    "soft_chunks texto = map strip pieces"
    by blast
  have "\<forall>p \<in> set (butlast pieces). \<exists>q. p = q @ delim"
    using p(2) by (auto simp: ends_delim_def dest: in_set_butlastD)
  with p(1,3) have "(delim = [] \<or> delim = delim)
     \<and> concat pieces = texto @ delim
     \<and> (\<forall>p \<in> set (butlast pieces). \<exists>q. p = q @ delim)
     \<and> soft_chunks texto = map strip pieces
     \<and> splitter texto = final_chunks (map strip pieces)
     \<and> concat (splitter texto) = concat (map strip pieces)"
    by (simp add: splitter_def concat_final_chunks)
  then show ?thesis by blast
qed

theorem splitter_join_stripped_pieces_witness:
  "\<exists>pieces tail.
     (tail = [] \<or> tail = delim)
     \<and> concat pieces = (replicate 2000 97 @ delim @ replicate 2000 98) @ tail
     \<and> (\<forall>p \<in> set (butlast pieces). \<exists>q. p = q @ delim)
     \<and> replicate 2000 97 @ [46] @ replicate 2000 98 @ [46] = concat (map strip pieces)"
proof -
  have "splitter (replicate 2000 97 @ delim @ replicate 2000 98)
      = [replicate 2000 97 @ [46], replicate 2000 98 @ [46]]"
    by (rule two_sentences) (simp_all add: has_delim_replicate is_space_def)
  then have "concat (splitter (replicate 2000 97 @ delim @ replicate 2000 98))
      = replicate 2000 97 @ [46] @ replicate 2000 98 @ [46]"
    by simp
  with splitter_join_stripped_pieces [of "replicate 2000 97 @ delim @ replicate 2000 98"]
  show ?thesis by metis
qed

text \<open>
  The claim as stated fails on two sentences of 2000 letters: the chunks are the two
  sentences, each with its full stop, and their concatenation has lost the space between
  them; it is neither the text, nor the text followed by the separator, nor the text
  followed by a full stop.
\<close>

theorem splitter_join_counterexample:
  "concat (splitter (replicate 2000 97 @ delim @ replicate 2000 98))
     = replicate 2000 97 @ [46] @ replicate 2000 98 @ [46]
   \<and> concat (splitter (replicate 2000 97 @ delim @ replicate 2000 98))
     \<noteq> replicate 2000 97 @ delim @ replicate 2000 98
   \<and> concat (splitter (replicate 2000 97 @ delim @ replicate 2000 98))
     \<noteq> (replicate 2000 97 @ delim @ replicate 2000 98) @ delim
   \<and> concat (splitter (replicate 2000 97 @ delim @ replicate 2000 98))
     \<noteq> (replicate 2000 97 @ delim @ replicate 2000 98) @ [46]"
proof -
  let ?t = "replicate 2000 (97::nat) @ delim @ replicate 2000 98"
  let ?c = "replicate 2000 (97::nat) @ [46] @ replicate 2000 98 @ [46]"
  have "splitter ?t = [replicate 2000 97 @ [46], replicate 2000 98 @ [46]]"
    by (rule two_sentences) (simp_all add: has_delim_replicate is_space_def)
  then have c: "concat (splitter ?t) = ?c"
    by simp
  have l: "?c ! 2001 = 98"
    by (simp add: nth_append)
  have r: "?t ! 2001 = 32"
    by (simp add: nth_append delim_def)
  have ne1: "?c \<noteq> ?t"
  proof
    assume "?c = ?t"
    then have "?c ! 2001 = ?t ! 2001"
      by (rule arg_cong)
    then show False unfolding l r by simp
  qed
  have ne2: "?c \<noteq> ?t @ delim"
  proof
    assume "?c = ?t @ delim"
    then have "length ?c = length (?t @ delim)"
      by (rule arg_cong)
    then show False by (simp add: delim_def)
  qed
  have ne3: "?c \<noteq> ?t @ [46]"
  proof
    assume "?c = ?t @ [46]"
    then have "length ?c = length (?t @ [46])"
      by (rule arg_cong)
    then show False by (simp add: delim_def)
  qed
  show ?thesis
    unfolding c by (intro conjI refl ne1 ne2 ne3)
qed

subsection \<open>The two scenarios\<close>

text \<open>
  Claim C10. The separator is appended to the last piece of the text too, which has
  none to restore, and both scenarios come out differently from what the claim states.
  Four sentences of 2998 letters, each followed by the separator, are 12000 code points
  and give five chunks, the last one a lone full stop made of the separator appended to
  the empty last piece. 6000 letters without a separator give slices of 2500, 2500 and
  1001 code points, the last one carrying the full stop of the appended separator.
\<close>

theorem scenario_chunk_lengths:
  "length (replicate 2998 97 @ delim @ replicate 2998 97 @ delim @ replicate 2998 97 @ delim
        @ replicate 2998 (97::nat) @ delim) = 12000
   \<and> map length (splitter (replicate 2998 97 @ delim @ replicate 2998 97 @ delim
        @ replicate 2998 97 @ delim @ replicate 2998 97 @ delim))
       = [2999, 2999, 2999, 2999, 1]
   \<and> length (replicate 6000 (97::nat)) = 6000
   \<and> \<not> has_delim (replicate 6000 97)
   \<and> map length (splitter (replicate 6000 97)) = [2500, 2500, 1001]"
proof -
  have a: "splitter (replicate 2998 97 @ delim @ replicate 2998 97 @ delim
        @ replicate 2998 97 @ delim @ replicate 2998 97 @ delim)
      = [replicate 2998 97 @ [46], replicate 2998 97 @ [46], replicate 2998 97 @ [46],
         replicate 2998 97 @ [46], [46]]"
    by (rule four_terminated_sentences) (simp_all add: has_delim_replicate is_space_def)
  have b: "splitter (replicate 6000 97) =
      [take 2500 (replicate 6000 97), take 2500 (drop 2500 (replicate 6000 97)),
       drop 5000 (replicate 6000 97) @ [46]]"
    by (rule six_thousand) (simp_all add: has_delim_replicate is_space_def)
  show ?thesis
    unfolding a b by (simp add: length_delim has_delim_replicate)
qed

subsection \<open>The hard limit\<close>

lemma splitter_chunk_length:
  "c \<in> set (splitter texto) \<Longrightarrow> length c \<le> 5000"
  unfolding splitter_def final_chunks_def
  by (auto dest: subchunks_length split: if_splits)


section \<open>Properties of the translation functions\<close>

subsection \<open>Joining the translated chunks\<close>

lemma join_py_Some: "\<forall>c \<in> set cs. f c = Some (g c) \<Longrightarrow> join_py (map f cs) = Inr (concat (map g cs))"
  by (induction cs) auto

lemma join_py_None: "None \<in> set xs \<Longrightarrow> \<exists>e. join_py xs = Inl e"
proof (induction xs rule: join_py.induct)
  case 1
  then show ?case by simp
next
  case (2 rest)
  then show ?case by simp
next
  case (3 s rest)
  then show ?case by (auto split: sum.splits)
qed

lemma google_no_silent_chunk:
  assumes "\<forall>c \<in> set (splitter texto). google_translate env source target c \<noteq> Inr None"
  shows "traducir_texto_google env texto source target
     = concat (map (\<lambda>c. case google_translate env source target c of
                           Inr (Some trad) \<Rightarrow> trad | _ \<Rightarrow> c) (splitter texto))"
proof -
  have "\<forall>c \<in> set (splitter texto). translate_chunk env source target c
      = Some (case google_translate env source target c of Inr (Some trad) \<Rightarrow> trad | _ \<Rightarrow> c)"
    using assms by (auto simp: translate_chunk_def split: sum.splits option.splits)
  then have "join_py (map (translate_chunk env source target) (splitter texto))
      = Inr (concat (map (\<lambda>c. case google_translate env source target c of
                           Inr (Some trad) \<Rightarrow> trad | _ \<Rightarrow> c) (splitter texto)))"
    by (rule join_py_Some)
  then show ?thesis
    by (simp add: traducir_texto_google_def)
qed

lemma google_all_raise:
  assumes "\<forall>c \<in> set (splitter texto). \<exists>e. google_translate env source target c = Inl e"
  shows "traducir_texto_google env texto source target = concat (splitter texto)"
proof -
  have "\<forall>c \<in> set (splitter texto). translate_chunk env source target c = Some c"
    using assms by (auto simp: translate_chunk_def)
  then have "join_py (map (translate_chunk env source target) (splitter texto))
      = Inr (concat (map (\<lambda>c. c) (splitter texto)))"
    by (rule join_py_Some)
  then show ?thesis
    by (simp add: traducir_texto_google_def)
qed

lemma google_returns_no_string:
  assumes "c \<in> set (splitter texto)" "google_translate env source target c = Inr None"
  shows "traducir_texto_google env texto source target = texto"
proof -
  have "None \<in> set (map (translate_chunk env source target) (splitter texto))"
    using assms by (force simp: translate_chunk_def)
  then obtain e where "join_py (map (translate_chunk env source target) (splitter texto)) = Inl e"
    using join_py_None by blast
  then show ?thesis by (simp add: traducir_texto_google_def)
qed

lemma splitter_a: "splitter [97] = [[97, 46]]"
  by (simp add: splitter_def final_chunks_def single_sentence is_space_def)

lemma strip_a: "strip [97] = [97]"
  by (simp add: strip_def is_space_def)

lemma splitter_six_thousand:
  "splitter (replicate 6000 97) =
      [take 2500 (replicate 6000 97), take 2500 (drop 2500 (replicate 6000 97)),
       drop 5000 (replicate 6000 97) @ [46]]"
  by (rule six_thousand) (simp_all add: has_delim_replicate is_space_def)

subsection \<open>What the engines are handed\<close>

text \<open>
  The Google engine is called on the chunks of the splitter and on nothing else: two
  engines that answer alike on the chunks give the same translation.
\<close>

lemma google_called_on_chunks:
  assumes "\<forall>c \<in> set (splitter texto).
      google_translate env source target c = google_translate env' source target c"
  shows "traducir_texto_google env texto source target
     = traducir_texto_google env' texto source target"
proof -
  have same: "map (translate_chunk env source target) (splitter texto)
      = map (translate_chunk env' source target) (splitter texto)"
    using assms by (simp add: translate_chunk_def)
  show ?thesis
    unfolding traducir_texto_google_def same by (rule refl)
qed

text \<open>
  Claim C2, as amended. Every chunk the splitter of \<open>traducir_texto_google\<close> produces,
  for any input text, is at most 5000 code points long, and the Google engine is called
  on these chunks only: the translation does not depend on what the Google engine
  answers to a text of more than 5000 code points. The DeepL engine, when it is
  requested and its key is set, is called on the whole text, whatever its length: what
  it answers to the text is the translation.
\<close>

theorem engine_inputs_hard_limit:
  "(c \<in> set (splitter texto) \<longrightarrow> length c \<le> 5000)
   \<and> ((\<forall>c. length c \<le> 5000
          \<longrightarrow> google_translate env source target c = google_translate env' source target c)
       \<longrightarrow> traducir_texto_google env texto source target
           = traducir_texto_google env' texto source target)
   \<and> (engine = ''deepl'' \<and> key_set (DEEPL_API_KEY env)
       \<and> deepl_translate env texto source target = Inr r
       \<longrightarrow> traducir_texto_engine env texto source target engine = r)"
proof (intro conjI impI)
  assume "c \<in> set (splitter texto)"
  then show "length c \<le> 5000" by (rule splitter_chunk_length)
next
  assume "\<forall>c. length c \<le> 5000
      \<longrightarrow> google_translate env source target c = google_translate env' source target c"
  then have "\<forall>c \<in> set (splitter texto).
      google_translate env source target c = google_translate env' source target c"
    using splitter_chunk_length by blast
  then show "traducir_texto_google env texto source target
      = traducir_texto_google env' texto source target"
    by (rule google_called_on_chunks)
next
  assume "engine = ''deepl'' \<and> key_set (DEEPL_API_KEY env)
       \<and> deepl_translate env texto source target = Inr r"
  then show "traducir_texto_engine env texto source target engine = r"
    by (simp add: traducir_texto_engine_def)
qed

theorem engine_inputs_hard_limit_witness:
  "take 2500 (replicate 6000 97) \<in> set (splitter (replicate 6000 97))
   \<and> length (take 2500 (replicate 6000 (97::nat))) \<le> 5000
   \<and> traducir_texto_google
        (with_MockRedis None deepl_down (google_rejects_long [104, 111, 108, 97]) (\<lambda>s. s))
        (replicate 6000 97) ''en'' ''es''
     = traducir_texto_google
        (with_MockRedis None deepl_down (google_says [104, 111, 108, 97]) (\<lambda>s. s))
        (replicate 6000 97) ''en'' ''es''
   \<and> traducir_texto_engine
        (with_MockRedis (Some ''key'') deepl_checks_size google_down (\<lambda>s. s))
        [97] ''en'' ''es'' ''deepl'' = py ''fits''"
proof -
  have m: "take 2500 (replicate 6000 97) \<in> set (splitter (replicate 6000 97))"
    unfolding splitter_six_thousand by simp
  have g: "\<forall>c. length c \<le> 5000 \<longrightarrow>
      google_translate (with_MockRedis None deepl_down
          (google_rejects_long [104, 111, 108, 97]) (\<lambda>s. s)) ''en'' ''es'' c
      = google_translate (with_MockRedis None deepl_down
          (google_says [104, 111, 108, 97]) (\<lambda>s. s)) ''en'' ''es'' c"
    by (simp add: with_MockRedis_def google_rejects_long_def google_says_def)
  have d: "''deepl'' = ''deepl''
      \<and> key_set (DEEPL_API_KEY (with_MockRedis (Some ''key'') deepl_checks_size google_down (\<lambda>s. s)))
      \<and> deepl_translate (with_MockRedis (Some ''key'') deepl_checks_size google_down (\<lambda>s. s))
          [97] ''en'' ''es'' = Inr (py ''fits'')"
    by (simp add: with_MockRedis_def deepl_checks_size_def)
  from m g d
    engine_inputs_hard_limit [where c = "take 2500 (replicate 6000 97)"
      and texto = "replicate 6000 97" and source = "''en''" and target = "''es''"
      and env = "with_MockRedis None deepl_down (google_rejects_long [104, 111, 108, 97]) (\<lambda>s. s)"
      and env' = "with_MockRedis None deepl_down (google_says [104, 111, 108, 97]) (\<lambda>s. s)"
      and engine = "''google''" and r = "[]"]
    engine_inputs_hard_limit [where c = "[]"
      and texto = "[97]" and source = "''en''" and target = "''es''"
      and env = "with_MockRedis (Some ''key'') deepl_checks_size google_down (\<lambda>s. s)"
      and env' = "with_MockRedis (Some ''key'') deepl_checks_size google_down (\<lambda>s. s)"
      and engine = "''deepl''" and r = "py ''fits''"]
  show ?thesis by blast
qed

text \<open>
  The claim as stated fails on a text of 6000 letters translated with DeepL: the one
  call of the engine is handed all 6000 code points.
\<close>

theorem deepl_handed_whole_text:
  "length (replicate 6000 (97::nat)) > 5000
   \<and> traducir_texto_engine
        (with_MockRedis (Some ''key'') deepl_checks_size google_down (\<lambda>s. s))
        (replicate 6000 97) ''en'' ''es'' ''deepl'' = py ''oversized''"
  by (simp add: traducir_texto_engine_def with_MockRedis_def deepl_checks_size_def)


subsection \<open>Falling back\<close>

text \<open>
  The chain of engines. When the requested engine is not DeepL, or no key is set, or
  the DeepL call raises, the result is that of \<open>traducir_texto_google\<close>. There, a chunk
  whose call raises is replaced by the chunk itself and the others by their
  translations, and when a call returns no string the join fails and the text is
  returned as it came. The functions are total: no exception leaves them.
\<close>

lemma engine_fallback:
  "((engine \<noteq> ''deepl'' \<or> \<not> key_set (DEEPL_API_KEY env)
      \<or> (\<exists>e. deepl_translate env texto source target = Inl e))
     \<longrightarrow> traducir_texto_engine env texto source target engine
         = traducir_texto_google env texto source target)
   \<and> ((\<forall>c \<in> set (splitter texto). google_translate env source target c \<noteq> Inr None)
     \<longrightarrow> traducir_texto_google env texto source target
         = concat (map (\<lambda>c. case google_translate env source target c of
                               Inr (Some trad) \<Rightarrow> trad | _ \<Rightarrow> c) (splitter texto)))
   \<and> ((\<forall>c \<in> set (splitter texto). \<exists>e. google_translate env source target c = Inl e)
     \<longrightarrow> traducir_texto_google env texto source target = concat (splitter texto))
   \<and> ((\<exists>c \<in> set (splitter texto). google_translate env source target c = Inr None)
     \<longrightarrow> traducir_texto_google env texto source target = texto)"
proof (intro conjI impI)
  assume "engine \<noteq> ''deepl'' \<or> \<not> key_set (DEEPL_API_KEY env)
      \<or> (\<exists>e. deepl_translate env texto source target = Inl e)"
  then show "traducir_texto_engine env texto source target engine
         = traducir_texto_google env texto source target"
    by (auto simp: traducir_texto_engine_def)
next
  assume "\<forall>c \<in> set (splitter texto). google_translate env source target c \<noteq> Inr None"
  then show "traducir_texto_google env texto source target
         = concat (map (\<lambda>c. case google_translate env source target c of
                               Inr (Some trad) \<Rightarrow> trad | _ \<Rightarrow> c) (splitter texto))"
    by (rule google_no_silent_chunk)
next
  assume "\<forall>c \<in> set (splitter texto). \<exists>e. google_translate env source target c = Inl e"
  then show "traducir_texto_google env texto source target = concat (splitter texto)"
    by (rule google_all_raise)
next
  assume "\<exists>c \<in> set (splitter texto). google_translate env source target c = Inr None"
  then show "traducir_texto_google env texto source target = texto"
    using google_returns_no_string by blast
qed

text \<open>
  Claim C3. With DeepL requested, its key set, and every call of DeepL and of Google
  raising, the text \<open>a\<close> comes back as \<open>a.\<close>: the chunk that is kept when its
  translation fails carries the full stop of the separator appended to the last piece
  of the text. When the Google engine returns no string, the same text comes back
  unchanged.
\<close>

theorem engines_down_text_changed:
  "traducir_texto_engine (with_MockRedis (Some ''key'') deepl_down google_down (\<lambda>s. s))
     [97] ''en'' ''es'' ''deepl'' = [97, 46]
   \<and> traducir_texto_engine (with_MockRedis (Some ''key'') deepl_down google_down (\<lambda>s. s))
     [97] ''en'' ''es'' ''deepl'' \<noteq> [97]
   \<and> traducir_texto_engine (with_MockRedis (Some ''key'') deepl_down google_silent (\<lambda>s. s))
     [97] ''en'' ''es'' ''deepl'' = [97]"
  by (simp add: traducir_texto_engine_def traducir_texto_google_def translate_chunk_def
      with_MockRedis_def deepl_down_def google_down_def google_silent_def splitter_a)

subsection \<open>The cache\<close>

lemma encodable_append: "encodable (a @ b) \<longleftrightarrow> encodable a \<and> encodable b"
  by (simp add: encodable_def)

lemma encodable_py: "encodable (py s)"
proof -
  have "(of_char c :: nat) < 55296" for c
    using nat_of_char_less_256[of c] by linarith
  then show ?thesis
    by (simp add: encodable_def py_def list_all_iff)
qed

lemma get_cache_key_encodable:
  "encodable texto \<Longrightarrow>
   get_cache_key env texto source target engine
     = Inr (md5 env (texto @ py ''|'' @ py source @ py ''|'' @ py target @ py ''|'' @ py engine))"
  by (simp add: get_cache_key_def Let_def encodable_append encodable_py)

lemma encodable_a: "encodable [97]"
  by (simp add: encodable_def)

lemma encodable_hola: "encodable [104, 111, 108, 97]"
  by (simp add: encodable_def)

lemma engine_says:
  "traducir_texto_engine (with_MockRedis None deepl_down (google_says answer) h\<lparr>redis_get := g, redis_setex := p\<rparr>)
     [97] source target ''google'' = answer"
  by (simp add: traducir_texto_engine_def traducir_texto_google_def translate_chunk_def
      with_MockRedis_def google_says_def splitter_a)

lemma engine_says_plain:
  "traducir_texto_engine (with_MockRedis None deepl_down (google_says answer) h)
     [97] source target ''google'' = answer"
  by (simp add: traducir_texto_engine_def traducir_texto_google_def translate_chunk_def
      with_MockRedis_def google_says_def splitter_a)

text \<open>
  Claim C6, as amended. \<open>traducir_con_cache\<close> handles no exception. For a text that is
  not blank, an exception raised while the cache key is computed (a text that cannot be
  encoded), by \<open>redis_client.get\<close>, or while a hit is decoded leaves the function before
  any engine is called, and an exception of \<open>redis_client.setex\<close> leaves it after the
  translation, which is then not returned. When nothing raises, a hit returns the
  cached text, and a miss returns the translation of the engine, stored first when it
  is not empty.
\<close>

theorem cache_failure_propagates:
  "(strip texto = []
      \<longrightarrow> traducir_con_cache env now store texto source target engine = Inr ([], store))
   \<and> (strip texto \<noteq> [] \<and> get_cache_key env texto source target engine = Inl e
      \<longrightarrow> traducir_con_cache env now store texto source target engine = Inl e)
   \<and> (strip texto \<noteq> [] \<and> get_cache_key env texto source target engine = Inr k
       \<and> redis_get env store now k = Inl e
      \<longrightarrow> traducir_con_cache env now store texto source target engine = Inl e)
   \<and> (strip texto \<noteq> [] \<and> get_cache_key env texto source target engine = Inr k
       \<and> redis_get env store now k = Inr cached \<and> truthy cached
      \<longrightarrow> traducir_con_cache env now store texto source target engine
          = (case decode (the cached) of Inl x \<Rightarrow> Inl x | Inr s \<Rightarrow> Inr (s, store)))
   \<and> (strip texto \<noteq> [] \<and> get_cache_key env texto source target engine = Inr k
       \<and> redis_get env store now k = Inr cached \<and> \<not> truthy cached
       \<and> traducir_texto_engine env texto source target engine = []
      \<longrightarrow> traducir_con_cache env now store texto source target engine = Inr ([], store))
   \<and> (strip texto \<noteq> [] \<and> get_cache_key env texto source target engine = Inr k
       \<and> redis_get env store now k = Inr cached \<and> \<not> truthy cached
       \<and> traducir_texto_engine env texto source target engine \<noteq> []
       \<and> redis_setex env store now k 86400
            (traducir_texto_engine env texto source target engine) = Inl e
      \<longrightarrow> traducir_con_cache env now store texto source target engine = Inl e)
   \<and> (strip texto \<noteq> [] \<and> get_cache_key env texto source target engine = Inr k
       \<and> redis_get env store now k = Inr cached \<and> \<not> truthy cached
       \<and> traducir_texto_engine env texto source target engine \<noteq> []
       \<and> redis_setex env store now k 86400
            (traducir_texto_engine env texto source target engine) = Inr store'
      \<longrightarrow> traducir_con_cache env now store texto source target engine
          = Inr (traducir_texto_engine env texto source target engine, store'))"
  by (simp add: traducir_con_cache_def Let_def)

theorem cache_failure_propagates_witness:
  "traducir_con_cache
     (with_MockRedis None deepl_down (google_says [104, 111, 108, 97]) (\<lambda>s. s)
        \<lparr>redis_get := redis_get_down, redis_setex := MockRedis_setex\<rparr>)
     0 MockRedis_init [97] ''en'' ''es'' ''google'' = Inl (Exception ''ConnectionError'')
   \<and> traducir_con_cache
     (with_MockRedis None deepl_down (google_says [104, 111, 108, 97]) (\<lambda>s. s)
        \<lparr>redis_get := MockRedis_get, redis_setex := redis_setex_down\<rparr>)
     0 MockRedis_init [97] ''en'' ''es'' ''google'' = Inl (Exception ''ConnectionError'')
   \<and> traducir_con_cache
     (with_MockRedis None deepl_down (google_says [104, 111, 108, 97]) (\<lambda>s. s))
     0 MockRedis_init [55296] ''en'' ''es'' ''google'' = Inl (Exception ''UnicodeEncodeError'')"
proof -
  let ?k = "[97] @ py ''|'' @ py ''en'' @ py ''|'' @ py ''es'' @ py ''|'' @ py ''google''"
  let ?g = "with_MockRedis None deepl_down (google_says [104, 111, 108, 97]) (\<lambda>s. s)
        \<lparr>redis_get := redis_get_down, redis_setex := MockRedis_setex\<rparr>"
  let ?s = "with_MockRedis None deepl_down (google_says [104, 111, 108, 97]) (\<lambda>s. s)
        \<lparr>redis_get := MockRedis_get, redis_setex := redis_setex_down\<rparr>"
  let ?m = "with_MockRedis None deepl_down (google_says [104, 111, 108, 97]) (\<lambda>s. s)"
  have kg: "get_cache_key ?g [97] ''en'' ''es'' ''google'' = Inr ?k"
    by (simp add: get_cache_key_encodable encodable_a with_MockRedis_def)
  have ks: "get_cache_key ?s [97] ''en'' ''es'' ''google'' = Inr ?k"
    by (simp add: get_cache_key_encodable encodable_a with_MockRedis_def)
  have km: "get_cache_key ?m [55296] ''en'' ''es'' ''google'' = Inl (Exception ''UnicodeEncodeError'')"
    by (simp add: get_cache_key_def Let_def encodable_def)
  have sp: "strip [55296] \<noteq> []"
    by (simp add: strip_def is_space_def)
  have g: "redis_get ?g MockRedis_init 0 ?k = Inl (Exception ''ConnectionError'')"
    by (simp add: redis_get_down_def)
  have s1: "redis_get ?s MockRedis_init 0 ?k = Inr None"
    by (simp add: MockRedis_get_def MockRedis_init_def)
  have s2: "redis_setex ?s MockRedis_init 0 ?k 86400
      (traducir_texto_engine ?s [97] ''en'' ''es'' ''google'') = Inl (Exception ''ConnectionError'')"
    by (simp add: redis_setex_down_def)
  have s3: "traducir_texto_engine ?s [97] ''en'' ''es'' ''google'' \<noteq> []"
    by (simp add: engine_says)
  from kg g
    cache_failure_propagates [where texto = "[97]" and now = 0 and store = MockRedis_init
      and source = "''en''" and target = "''es''" and engine = "''google''"
      and e = "Exception ''ConnectionError''" and k = ?k and env = ?g]
  have 1: "traducir_con_cache ?g 0 MockRedis_init [97] ''en'' ''es'' ''google''
      = Inl (Exception ''ConnectionError'')"
    by (simp add: strip_a)
  from ks s1 s2 s3
    cache_failure_propagates [where texto = "[97]" and now = 0 and store = MockRedis_init
      and source = "''en''" and target = "''es''" and engine = "''google''"
      and e = "Exception ''ConnectionError''" and k = ?k and env = ?s and cached = None]
  have 2: "traducir_con_cache ?s 0 MockRedis_init [97] ''en'' ''es'' ''google''
      = Inl (Exception ''ConnectionError'')"
    by (simp add: strip_a)
  from km sp
    cache_failure_propagates [where texto = "[55296]" and now = 0 and store = MockRedis_init
      and source = "''en''" and target = "''es''" and engine = "''google''"
      and e = "Exception ''UnicodeEncodeError''" and env = ?m]
  have 3: "traducir_con_cache ?m 0 MockRedis_init [55296] ''en'' ''es'' ''google''
      = Inl (Exception ''UnicodeEncodeError'')"
    by simp
  from 1 2 3 show ?thesis by (intro conjI)
qed

text \<open>
  The claim as stated fails on the text \<open>a\<close>, which the engine translates to \<open>hola\<close>:
  with a store whose \<open>get\<close> raises, and with one whose \<open>setex\<close> raises, the call ends
  with the exception of the store instead of returning \<open>hola\<close>.
\<close>

theorem cache_failure_counterexample:
  "traducir_texto_engine
     (with_MockRedis None deepl_down (google_says [104, 111, 108, 97]) (\<lambda>s. s)
        \<lparr>redis_get := redis_get_down, redis_setex := MockRedis_setex\<rparr>)
     [97] ''en'' ''es'' ''google'' = [104, 111, 108, 97]
   \<and> traducir_con_cache
     (with_MockRedis None deepl_down (google_says [104, 111, 108, 97]) (\<lambda>s. s)
        \<lparr>redis_get := redis_get_down, redis_setex := MockRedis_setex\<rparr>)
     0 MockRedis_init [97] ''en'' ''es'' ''google'' = Inl (Exception ''ConnectionError'')
   \<and> traducir_con_cache
     (with_MockRedis None deepl_down (google_says [104, 111, 108, 97]) (\<lambda>s. s)
        \<lparr>redis_get := MockRedis_get, redis_setex := redis_setex_down\<rparr>)
     0 MockRedis_init [97] ''en'' ''es'' ''google'' = Inl (Exception ''ConnectionError'')"
  by (simp add: traducir_con_cache_def Let_def strip_a engine_says redis_get_down_def
      redis_setex_down_def MockRedis_get_def MockRedis_init_def get_cache_key_encodable
      encodable_a)

text \<open>
  Claim C9. In the in-process map an entry outlives its time to live. The translation
  \<open>hola\<close> of the text \<open>a\<close>, stored at time 0 with a time to live of 86400 seconds, is
  returned from the cache by a lookup at time 86401, although the engine would then
  answer \<open>adios\<close>: \<open>MockRedis.setex\<close> drops the time to live it is passed.
\<close>

theorem mock_cache_stale_hit:
  "traducir_con_cache (with_MockRedis None deepl_down (google_says [104, 111, 108, 97]) (\<lambda>s. s))
     0 MockRedis_init [97] ''en'' ''es'' ''google''
   = Inr ([104, 111, 108, 97],
       MockRedis_init([97] @ py ''|'' @ py ''en'' @ py ''|'' @ py ''es'' @ py ''|'' @ py ''google''
         \<mapsto> Utf8 [104, 111, 108, 97]))
   \<and> traducir_con_cache
       (with_MockRedis None deepl_down (google_says [97, 100, 105, 111, 115]) (\<lambda>s. s))
       (0 + 86400 + 1)
       (MockRedis_init([97] @ py ''|'' @ py ''en'' @ py ''|'' @ py ''es'' @ py ''|'' @ py ''google''
         \<mapsto> Utf8 [104, 111, 108, 97]))
       [97] ''en'' ''es'' ''google''
     = Inr ([104, 111, 108, 97],
         MockRedis_init([97] @ py ''|'' @ py ''en'' @ py ''|'' @ py ''es'' @ py ''|'' @ py ''google''
           \<mapsto> Utf8 [104, 111, 108, 97]))
   \<and> traducir_texto_engine
       (with_MockRedis None deepl_down (google_says [97, 100, 105, 111, 115]) (\<lambda>s. s))
       [97] ''en'' ''es'' ''google'' = [97, 100, 105, 111, 115]"
proof -
  let ?k = "[97] @ py ''|'' @ py ''en'' @ py ''|'' @ py ''es'' @ py ''|'' @ py ''google''"
  have k: "get_cache_key (with_MockRedis None deepl_down (google_says answer) (\<lambda>s. s))
       [97] ''en'' ''es'' ''google'' = Inr ?k" for answer
    by (simp add: get_cache_key_encodable encodable_a with_MockRedis_def)
  have first: "traducir_con_cache
       (with_MockRedis None deepl_down (google_says [104, 111, 108, 97]) (\<lambda>s. s))
       0 MockRedis_init [97] ''en'' ''es'' ''google''
     = Inr ([104, 111, 108, 97], MockRedis_init(?k \<mapsto> Utf8 [104, 111, 108, 97]))"
    unfolding traducir_con_cache_def Let_def k engine_says_plain
    by (simp add: strip_a with_MockRedis_def MockRedis_get_def MockRedis_setex_def
        MockRedis_init_def encodable_hola)
  have second: "traducir_con_cache
       (with_MockRedis None deepl_down (google_says [97, 100, 105, 111, 115]) (\<lambda>s. s))
       (0 + 86400 + 1) (MockRedis_init(?k \<mapsto> Utf8 [104, 111, 108, 97]))
       [97] ''en'' ''es'' ''google''
     = Inr ([104, 111, 108, 97], MockRedis_init(?k \<mapsto> Utf8 [104, 111, 108, 97]))"
    unfolding traducir_con_cache_def Let_def k
    by (simp add: strip_a with_MockRedis_def MockRedis_get_def)
  have third: "traducir_texto_engine
       (with_MockRedis None deepl_down (google_says [97, 100, 105, 111, 115]) (\<lambda>s. s))
       [97] ''en'' ''es'' ''google'' = [97, 100, 105, 111, 115]"
    by (rule engine_says_plain)
  from first second third show ?thesis by (intro conjI)
qed

section \<open>Properties of the rate limiter\<close>

text \<open>
  Claim C5. \<open>last_usage\<close> holds for each user the time of the last call that was allowed,
  since only an allowed call writes it. A call less than a minute after that time
  returns \<open>False\<close> and leaves \<open>last_usage\<close> as it is; a call a minute or more after it,
  or of a user without an entry, returns \<open>True\<close> and records the time of the call. A
  call for one user leaves the entry of every other user as it is, and its result
  depends on that user's entry only.
\<close>

theorem rate_limit_window:
  "(last_usage s = Some t \<and> now - t < minute
      \<longrightarrow> check_rate_limit last_usage now s = (False, last_usage))
   \<and> (last_usage s = Some t \<and> minute \<le> now - t
      \<longrightarrow> check_rate_limit last_usage now s = (True, last_usage(s \<mapsto> now)))
   \<and> (last_usage s = None
      \<longrightarrow> check_rate_limit last_usage now s = (True, last_usage(s \<mapsto> now)))
   \<and> (s' \<noteq> s \<longrightarrow> snd (check_rate_limit last_usage now s) s' = last_usage s')
   \<and> (last_usage s = other s
      \<longrightarrow> fst (check_rate_limit last_usage now s) = fst (check_rate_limit other now s))"
  by (auto simp: check_rate_limit_def split: option.splits)

theorem rate_limit_window_witness:
  "check_rate_limit [7 \<mapsto> 0] 59999999 7 = (False, [7 \<mapsto> 0])
   \<and> check_rate_limit [7 \<mapsto> 0] 60000000 7 = (True, [7 \<mapsto> 60000000])
   \<and> check_rate_limit Map.empty 5 7 = (True, [7 \<mapsto> 5])
   \<and> snd (check_rate_limit [7 \<mapsto> 0, 8 \<mapsto> 3] 60000000 7) 8 = Some 3
   \<and> fst (check_rate_limit [7 \<mapsto> 0, 8 \<mapsto> 3] 60000000 7)
       = fst (check_rate_limit [7 \<mapsto> 0] 60000000 7)"
  using rate_limit_window [where last_usage = "[7 \<mapsto> 0]" and s = 7 and t = 0
      and now = 59999999 and s' = 8 and other = "[7 \<mapsto> 0]"]
    rate_limit_window [where last_usage = "[7 \<mapsto> 0]" and s = 7 and t = 0
      and now = 60000000 and s' = 8 and other = "[7 \<mapsto> 0]"]
    rate_limit_window [where last_usage = "Map.empty" and s = 7 and t = 0
      and now = 5 and s' = 8 and other = "Map.empty"]
    rate_limit_window [where last_usage = "[7 \<mapsto> 0, 8 \<mapsto> 3]" and s = 7 and t = 0
      and now = 60000000 and s' = 8 and other = "[7 \<mapsto> 0]"]
  by (simp add: minute_def)


section \<open>Properties of the queue\<close>

subsection \<open>What \<open>add_to_queue\<close> leaves in memory and on disk\<close>

lemma add_to_queue_queue:
  "queue (snd (add_to_queue new_id now est self uid fpath fsize prio))
     = sort_key sort_order (queue self @
         [\<lparr>item_id = new_id, user_id = uid, file_path = fpath, file_size = fsize,
           priority = prio, status = ''queued'', created_at = now,
           started_at = None, completed_at = None, progress = 0,
           result_path = None, error_msg = None, estimated_time = Some est\<rparr>])"
  by (simp add: add_to_queue_def Let_def save_queue_def)

lemma add_to_queue_disk:
  "disk (snd (add_to_queue new_id now est self uid fpath fsize prio))
     = Records (queue self @
         [\<lparr>item_id = new_id, user_id = uid, file_path = fpath, file_size = fsize,
           priority = prio, status = ''queued'', created_at = now,
           started_at = None, completed_at = None, progress = 0,
           result_path = None, error_msg = None, estimated_time = Some est\<rparr>])"
  by (simp add: add_to_queue_def Let_def save_queue_def)

lemma add_to_queue_sorted:
  "sorted (map sort_order (queue (snd (add_to_queue new_id now est self uid fpath fsize prio))))"
  unfolding add_to_queue_queue by (rule sorted_sort_key)

lemma two_adds_queue:
  "queue two_adds = [job ''B'' 7 4 ''queued'' ''2024-01-01T10:00:05'',
                     job ''A'' 7 1 ''queued'' ''2024-01-01T10:00:00'']"
  by (simp add: two_adds_def add_to_queue_queue QueuePlugin_init_def job_def sort_order_def)

lemma two_adds_disk:
  "disk two_adds = Records [job ''A'' 7 1 ''queued'' ''2024-01-01T10:00:00'',
                            job ''B'' 7 4 ''queued'' ''2024-01-01T10:00:05'']"
  by (simp add: two_adds_def add_to_queue_disk add_to_queue_queue QueuePlugin_init_def job_def
      sort_order_def)

subsection \<open>Dispatching from a queue that is in the order of \<open>add_to_queue\<close>\<close>

lemma sort_order_start_first_pending:
  "map sort_order (start_first_pending now q) = map sort_order q"
  by (induction q) (auto simp: sort_order_def start_item_def)

lemma dispatch_keeps_order:
  "map sort_order (queue (snd (dispatch now self))) = map sort_order (queue self)"
  by (auto simp: dispatch_def save_queue_def sort_order_start_first_pending split: list.splits)

lemma sort_order_cancel_loop:
  "map sort_order (snd (cancel_loop iid uid q)) = map sort_order q"
  by (induction q) (auto simp: sort_order_def split: prod.splits)

lemma cancel_keeps_order:
  "map sort_order (queue (snd (cancel_item self iid uid))) = map sort_order (queue self)"
proof (cases "cancel_loop iid uid (queue self)")
  case (Pair r q')
  with sort_order_cancel_loop[of iid uid "queue self"] show ?thesis
    by (cases r) (simp_all add: cancel_item_def save_queue_def)
qed

lemma dispatch_takes_first_pending:
  "fst (dispatch now self) = Some item \<Longrightarrow> \<exists>rest. pending_items (queue self) = item # rest"
  by (auto simp: dispatch_def split: if_splits list.splits)

lemma sort_order_le:
  "sort_order x \<le> sort_order y \<longleftrightarrow>
     priority y < priority x \<or> (priority y = priority x \<and> created_at x \<le> created_at y)"
  by (auto simp: sort_order_def)

text \<open>
  As long as the queue in memory is in the order \<open>add_to_queue\<close> leaves it, the job
  taken is the best of the queued ones: no queued job has a higher priority, and none of
  the same priority was created earlier.
\<close>

lemma dispatch_takes_best:
  assumes "sorted (map sort_order (queue self))"
    and "fst (dispatch now self) = Some item"
    and "y \<in> set (pending_items (queue self))"
  shows "priority y < priority item
     \<or> (priority y = priority item \<and> created_at item \<le> created_at y)"
proof -
  from assms(2) obtain rest where p: "pending_items (queue self) = item # rest"
    using dispatch_takes_first_pending by blast
  have "sorted (map sort_order (pending_items (queue self)))"
    unfolding pending_items_def using assms(1) by (rule sorted_filter)
  with p assms(3) have "sort_order item \<le> sort_order y" by auto
  then show ?thesis by (simp add: sort_order_le)
qed

subsection \<open>Dispatching after a restart\<close>

lemma pass_after_restart:
  "map item_id (fst (process_queue_pass clock 0 (load_queue (QueuePlugin_init (disk two_adds)))))
     = [''A'', ''B'']"
proof -
  let ?A = "job ''A'' 7 1 ''queued'' ''2024-01-01T10:00:00''"
  let ?B = "job ''B'' 7 4 ''queued'' ''2024-01-01T10:00:05''"
  let ?s0 = "load_queue (QueuePlugin_init (disk two_adds))"
  let ?s1 = "\<lparr>queue = [start_item (clock 0) ?A, ?B], processing_slots = 2,
      currently_processing = 1, disk = Records [start_item (clock 0) ?A, ?B]\<rparr>"
  let ?s2 = "\<lparr>queue = [start_item (clock 0) ?A, start_item (clock (Suc 0)) ?B],
      processing_slots = 2, currently_processing = 2,
      disk = Records [start_item (clock 0) ?A, start_item (clock (Suc 0)) ?B]\<rparr>"
  have s0: "?s0 = \<lparr>queue = [?A, ?B], processing_slots = 2, currently_processing = 0,
      disk = Records [?A, ?B]\<rparr>"
    by (simp add: two_adds_disk load_queue_def QueuePlugin_init_def)
  have st: "status (job i u p ''queued'' c) = ''queued''" for i u p c
    by (simp add: job_def)
  have d0: "dispatch (clock 0) ?s0 = (Some ?A, ?s1)"
    unfolding s0 by (simp add: dispatch_def pending_items_def st save_queue_def)
  have d1: "dispatch (clock (Suc 0)) ?s1 = (Some ?B, ?s2)"
    by (simp add: dispatch_def pending_items_def st save_queue_def start_item_def)
  have d2: "dispatch (clock (Suc (Suc 0))) ?s2 = (None, ?s2)"
    by (simp add: dispatch_def)
  have p2: "process_queue_pass clock (Suc (Suc 0)) ?s2 = ([], ?s2)"
    by (subst process_queue_pass.simps) (simp only: d2 prod.case option.case)
  have p1: "process_queue_pass clock (Suc 0) ?s1 = ([?B], ?s2)"
    by (subst process_queue_pass.simps) (simp only: d1 p2 prod.case option.case)
  have p0: "process_queue_pass clock 0 ?s0 = ([?A, ?B], ?s2)"
    by (subst process_queue_pass.simps) (simp only: d0 p1 prod.case option.case)
  show ?thesis
    unfolding p0 by (simp add: job_def)
qed

text \<open>
  Claim C4. The job \<open>process_queue\<close> takes is the first queued one in the list, which
  is the best one only while the list is sorted. \<open>add_to_queue\<close> writes the file before
  it sorts, and \<open>load_queue\<close> does not sort: after job \<open>A\<close> of priority 1 and job \<open>B\<close>
  of priority 4 have been added, the file holds \<open>A\<close> before \<open>B\<close>, and a process started
  on that file takes \<open>A\<close> while \<open>B\<close>, of higher priority, is queued.
\<close>

theorem restart_dispatch_order:
  "queue two_adds = [job ''B'' 7 4 ''queued'' ''2024-01-01T10:00:05'',
                     job ''A'' 7 1 ''queued'' ''2024-01-01T10:00:00'']
   \<and> disk two_adds = Records [job ''A'' 7 1 ''queued'' ''2024-01-01T10:00:00'',
                               job ''B'' 7 4 ''queued'' ''2024-01-01T10:00:05'']
   \<and> fst (dispatch now (load_queue (QueuePlugin_init (disk two_adds))))
       = Some (job ''A'' 7 1 ''queued'' ''2024-01-01T10:00:00'')
   \<and> job ''B'' 7 4 ''queued'' ''2024-01-01T10:00:05''
       \<in> set (pending_items (queue (load_queue (QueuePlugin_init (disk two_adds)))))
   \<and> priority (job ''A'' 7 1 ''queued'' ''2024-01-01T10:00:00'')
       < priority (job ''B'' 7 4 ''queued'' ''2024-01-01T10:00:05'')
   \<and> map item_id (fst (process_queue_pass clock 0
         (load_queue (QueuePlugin_init (disk two_adds))))) = [''A'', ''B'']"
proof -
  have q: "queue (load_queue (QueuePlugin_init (disk two_adds)))
      = [job ''A'' 7 1 ''queued'' ''2024-01-01T10:00:00'',
         job ''B'' 7 4 ''queued'' ''2024-01-01T10:00:05'']"
    by (simp add: two_adds_disk load_queue_def QueuePlugin_init_def)
  have st: "status (job i u p ''queued'' c) = ''queued''" for i u p c
    by (simp add: job_def)
  have free: "currently_processing (load_queue (QueuePlugin_init (disk two_adds)))
      < processing_slots (load_queue (QueuePlugin_init (disk two_adds)))"
    by (simp add: two_adds_disk load_queue_def QueuePlugin_init_def)
  have p: "pending_items (queue (load_queue (QueuePlugin_init (disk two_adds))))
      = [job ''A'' 7 1 ''queued'' ''2024-01-01T10:00:00'',
         job ''B'' 7 4 ''queued'' ''2024-01-01T10:00:05'']"
    unfolding q pending_items_def by (simp add: st)
  have taken: "fst (dispatch now (load_queue (QueuePlugin_init (disk two_adds))))
     = Some (job ''A'' 7 1 ''queued'' ''2024-01-01T10:00:00'')"
    using free unfolding dispatch_def p by (simp add: q)
  have lower: "priority (job ''A'' 7 1 ''queued'' ''2024-01-01T10:00:00'')
       < priority (job ''B'' 7 4 ''queued'' ''2024-01-01T10:00:05'')"
    by (simp add: job_def)
  show ?thesis
    unfolding p using two_adds_queue two_adds_disk taken lower pass_after_restart by simp
qed

subsection \<open>Reloading\<close>




subsection \<open>Cancelling\<close>

lemma cancel_loop_length: "length (snd (cancel_loop iid uid q)) = length q"
  by (induction q) (auto split: prod.splits)

lemma cancelled_from_refl: "list_all2 (cancelled_from iid uid r) q q"
  by (rule list.rel_refl) (simp add: cancelled_from_def)

lemma cancel_loop_rel:
  "cancel_loop iid uid q = (r, q') \<Longrightarrow> list_all2 (cancelled_from iid uid r) q q'"
proof (induction q arbitrary: q')
  case Nil
  then show ?case by simp
next
  case (Cons item rest)
  consider (queued) "item_id item = iid \<and> user_id item = uid \<and> status item = ''queued''"
    | (processing) "item_id item = iid \<and> user_id item = uid \<and> status item = ''processing''"
    | (other) "\<not> (item_id item = iid \<and> user_id item = uid \<and> status item = ''queued'')"
        "\<not> (item_id item = iid \<and> user_id item = uid \<and> status item = ''processing'')"
    by blast
  then show ?case
  proof cases
    case queued
    with Cons.prems have "r" "q' = item\<lparr>status := ''cancelled''\<rparr> # rest" by auto
    with queued show ?thesis
      by (simp add: cancelled_from_refl) (simp add: cancelled_from_def)
  next
    case processing
    with Cons.prems have "q' = item # rest" by auto
    then show ?thesis
      by (simp add: cancelled_from_refl) (simp add: cancelled_from_def)
  next
    case other
    with Cons.prems obtain rest' where r: "cancel_loop iid uid rest = (r, rest')" "q' = item # rest'"
      by (cases "cancel_loop iid uid rest") auto
    from Cons.IH[OF r(1)] r(2) show ?thesis
      by simp (simp add: cancelled_from_def)
  qed
qed

lemma cancel_loop_pointwise:
  assumes "cancel_loop iid uid q = (r, q')" "i < length q"
  shows "cancelled_from iid uid r (q ! i) (q' ! i)"
  using cancel_loop_rel[OF assms(1)] assms(2) by (rule list_all2_nthD)

lemma cancel_loop_True:
  "cancel_loop iid uid q = (True, q') \<Longrightarrow>
   \<exists>i < length q. item_id (q ! i) = iid \<and> user_id (q ! i) = uid \<and> status (q ! i) = ''queued''
      \<and> q' = q[i := (q ! i)\<lparr>status := ''cancelled''\<rparr>]"
proof (induction q arbitrary: q')
  case Nil
  then show ?case by simp
next
  case (Cons item rest)
  consider (queued) "item_id item = iid \<and> user_id item = uid \<and> status item = ''queued''"
    | (processing) "item_id item = iid \<and> user_id item = uid \<and> status item = ''processing''"
    | (other) "\<not> (item_id item = iid \<and> user_id item = uid \<and> status item = ''queued'')"
        "\<not> (item_id item = iid \<and> user_id item = uid \<and> status item = ''processing'')"
    by blast
  then show ?case
  proof cases
    case queued
    with Cons.prems have "q' = item\<lparr>status := ''cancelled''\<rparr> # rest" by simp
    with queued have "0 < length (item # rest) \<and> item_id ((item # rest) ! 0) = iid
        \<and> user_id ((item # rest) ! 0) = uid \<and> status ((item # rest) ! 0) = ''queued''
        \<and> q' = (item # rest)[0 := ((item # rest) ! 0)\<lparr>status := ''cancelled''\<rparr>]"
      by simp
    then show ?thesis by (rule exI)
  next
    case processing
    with Cons.prems show ?thesis by simp
  next
    case other
    with Cons.prems obtain rest' where r: "cancel_loop iid uid rest = (True, rest')"
        "q' = item # rest'"
      by (cases "cancel_loop iid uid rest") auto
    from Cons.IH[OF r(1)] obtain i where i: "i < length rest" "item_id (rest ! i) = iid"
      "user_id (rest ! i) = uid" "status (rest ! i) = ''queued''"
      "rest' = rest[i := (rest ! i)\<lparr>status := ''cancelled''\<rparr>]" by blast
    with r(2) have "Suc i < length (item # rest) \<and> item_id ((item # rest) ! Suc i) = iid
        \<and> user_id ((item # rest) ! Suc i) = uid \<and> status ((item # rest) ! Suc i) = ''queued''
        \<and> q' = (item # rest)[Suc i := ((item # rest) ! Suc i)\<lparr>status := ''cancelled''\<rparr>]"
      by simp
    then show ?thesis by (rule exI)
  qed
qed

lemma unique_id:
  "distinct (map item_id q) \<Longrightarrow> item \<in> set q \<Longrightarrow> x \<in> set q \<Longrightarrow> item_id x = item_id item \<Longrightarrow>
   x = item"
  by (auto simp: distinct_map dest: inj_onD)

lemma cancel_loop_none_queued:
  "\<forall>x \<in> set q. item_id x = iid \<and> user_id x = uid \<longrightarrow> status x \<noteq> ''queued'' \<Longrightarrow>
   cancel_loop iid uid q = (False, q)"
  by (induction q) auto


text \<open>
  Claim C8. A call of \<open>cancel_item\<close> changes no item of the queue, or returns \<open>True\<close>
  and changes exactly one item, which had the given id and user and the status
  \<open>queued\<close>, to \<open>cancelled\<close>. When no item of the given id and user is \<open>queued\<close>, in
  particular when ids are distinct and the job of that id is \<open>processing\<close>, the call
  returns \<open>False\<close> and leaves the state as it is; an item whose status is \<open>processing\<close>
  is never changed.
\<close>

theorem cancel_only_queued:
  "cancel_item self iid uid = (r, self') \<Longrightarrow>
   length (queue self') = length (queue self)
   \<and> (\<forall>i < length (queue self).
        queue self' ! i = queue self ! i
        \<or> (r \<and> item_id (queue self ! i) = iid \<and> user_id (queue self ! i) = uid
            \<and> status (queue self ! i) = ''queued''
            \<and> queue self' ! i = (queue self ! i)\<lparr>status := ''cancelled''\<rparr>))
   \<and> (r \<longrightarrow> (\<exists>i < length (queue self). status (queue self ! i) = ''queued''
            \<and> item_id (queue self ! i) = iid \<and> user_id (queue self ! i) = uid
            \<and> queue self' = (queue self)[i := (queue self ! i)\<lparr>status := ''cancelled''\<rparr>]))
   \<and> ((\<forall>x \<in> set (queue self). item_id x = iid \<and> user_id x = uid \<longrightarrow> status x \<noteq> ''queued'')
        \<longrightarrow> \<not> r \<and> self' = self)
   \<and> (\<forall>i < length (queue self).
        status (queue self ! i) = ''processing'' \<longrightarrow> queue self' ! i = queue self ! i)
   \<and> (\<forall>item \<in> set (queue self).
        item_id item = iid \<and> user_id item = uid \<and> status item = ''processing''
        \<and> distinct (map item_id (queue self))
        \<longrightarrow> \<not> r \<and> self' = self)"
proof -
  assume a: "cancel_item self iid uid = (r, self')"
  obtain q' where l: "cancel_loop iid uid (queue self) = (r, q')"
    using a by (cases "cancel_loop iid uid (queue self)") (auto simp: cancel_item_def split: bool.splits)
  have q: "queue self' = (if r then q' else queue self)"
    using a l by (auto simp: cancel_item_def save_queue_def split: bool.splits)
  have len: "length q' = length (queue self)"
    using cancel_loop_length[of iid uid "queue self"] l by simp
  have 1: "length (queue self') = length (queue self)"
    using q len by simp
  have 2: "queue self' ! i = queue self ! i
        \<or> (r \<and> item_id (queue self ! i) = iid \<and> user_id (queue self ! i) = uid
            \<and> status (queue self ! i) = ''queued''
            \<and> queue self' ! i = (queue self ! i)\<lparr>status := ''cancelled''\<rparr>)"
    if "i < length (queue self)" for i
    using cancel_loop_pointwise[OF l that] q by (auto simp: cancelled_from_def)
  have 3: "\<exists>i < length (queue self). status (queue self ! i) = ''queued''
            \<and> item_id (queue self ! i) = iid \<and> user_id (queue self ! i) = uid
            \<and> queue self' = (queue self)[i := (queue self ! i)\<lparr>status := ''cancelled''\<rparr>]"
    if "r"
    using cancel_loop_True[of iid uid "queue self" q'] l q that by auto
  have 4: "\<not> r \<and> self' = self"
    if "\<forall>x \<in> set (queue self). item_id x = iid \<and> user_id x = uid \<longrightarrow> status x \<noteq> ''queued''"
    using cancel_loop_none_queued[OF that] a by (simp add: cancel_item_def)
  have 5: "queue self' ! i = queue self ! i"
    if "i < length (queue self)" "status (queue self ! i) = ''processing''" for i
    using 2[OF that(1)] that(2) by auto
  have 6: "\<not> r \<and> self' = self"
    if "item \<in> set (queue self)" "item_id item = iid" "user_id item = uid"
      "status item = ''processing''" "distinct (map item_id (queue self))" for item
  proof -
    have "status x \<noteq> ''queued''" if "x \<in> set (queue self)" "item_id x = iid" for x
    proof -
      from that \<open>item_id item = iid\<close> have "item_id x = item_id item" by simp
      with \<open>distinct (map item_id (queue self))\<close> \<open>item \<in> set (queue self)\<close> that(1)
      have "x = item" by (rule unique_id)
      with \<open>status item = ''processing''\<close> show ?thesis by simp
    qed
    then have "\<forall>x \<in> set (queue self).
        item_id x = iid \<and> user_id x = uid \<longrightarrow> status x \<noteq> ''queued''"
      by blast
    then show ?thesis by (rule 4)
  qed
  from 1 2 3 4 5 6 show ?thesis by blast
qed

theorem cancel_only_queued_witness:
  "cancel_item two_jobs ''B'' 7
     = (True, save_queue (two_jobs\<lparr>queue :=
          [job ''A'' 7 2 ''processing'' ''2024-01-01T10:00:00'',
           job ''B'' 7 2 ''cancelled'' ''2024-01-01T10:00:05'']\<rparr>))
   \<and> length (queue (save_queue (two_jobs\<lparr>queue :=
          [job ''A'' 7 2 ''processing'' ''2024-01-01T10:00:00'',
           job ''B'' 7 2 ''cancelled'' ''2024-01-01T10:00:05'']\<rparr>))) = length (queue two_jobs)
   \<and> cancel_item two_jobs ''A'' 7 = (False, two_jobs)"
proof -
  have b: "cancel_item two_jobs ''B'' 7
     = (True, save_queue (two_jobs\<lparr>queue :=
          [job ''A'' 7 2 ''processing'' ''2024-01-01T10:00:00'',
           job ''B'' 7 2 ''cancelled'' ''2024-01-01T10:00:05'']\<rparr>))"
    by (simp add: cancel_item_def two_jobs_def job_def)
  have a: "cancel_item two_jobs ''A'' 7 = (False, two_jobs)"
    by (simp add: cancel_item_def two_jobs_def job_def)
  from cancel_only_queued [OF b] cancel_only_queued [OF a] a b show ?thesis
    by simp
qed

end
